theory Spec2Isabelle
  imports Complex_Main
begin

section \<open>Numbers, vectors and colours\<close>

text \<open>
  The globe view (\<^verbatim>\<open>GlobeView\<close>, second part of \<^verbatim>\<open>src/components/Toggle.tsx\<close>) turns
  the rings of a GeoJSON feature collection into one buffer of line segments.

  JavaScript numbers are modelled as \<^typ>\<open>real\<close>: the coordinates come out of
  \<^verbatim>\<open>res.json()\<close>, which never yields NaN, and rounding of IEEE doubles is not modelled.
  A \<^verbatim>\<open>THREE.Vector3\<close> is its three components, a \<^verbatim>\<open>THREE.Color\<close> its three channels;
  the channels of a colour written \<^verbatim>\<open>'#rrggbb'\<close> are taken as the bytes over 255 (the
  library's own colour-space handling is outside the repository).
\<close>

datatype Vector3 = Vector3 (vx: real) (vy: real) (vz: real)

datatype Color = Color (chan_r: real) (chan_g: real) (chan_b: real)

definition hexColor :: "nat \<Rightarrow> nat \<Rightarrow> nat \<Rightarrow> Color" where
  "hexColor rr gg bb = Color (real rr / 255) (real gg / 255) (real bb / 255)"

definition GLOBE_RADIUS :: real where
  "GLOBE_RADIUS = 2"

subsection \<open>The projector\<close>

text \<open>
  \<^verbatim>\<open>
  const latLngToVector3 = (lat, lng, radius) => {
    const phi = (90 - lat) * (Math.PI / 180);
    const theta = (lng + 180) * (Math.PI / 180);
    const x = -radius * Math.sin(phi) * Math.cos(theta);
    const y = radius * Math.cos(phi);
    const z = radius * Math.sin(phi) * Math.sin(theta);
    return new THREE.Vector3(x, y, z);
  };
  \<close>
\<close>

definition latLngToVector3 :: "real \<Rightarrow> real \<Rightarrow> real \<Rightarrow> Vector3" where
  "latLngToVector3 lat lng radius =
     (let phi = (90 - lat) * (pi / 180);
          theta = (lng + 180) * (pi / 180);
          x = - radius * sin phi * cos theta;
          y = radius * cos phi;
          z = radius * sin phi * sin theta
      in Vector3 x y z)"

definition norm3 :: "Vector3 \<Rightarrow> real" where
  "norm3 v = sqrt ((vx v)\<^sup>2 + (vy v)\<^sup>2 + (vz v)\<^sup>2)"

subsection \<open>The continent palette\<close>

text \<open>
  \<^verbatim>\<open>CONTINENT_COLORS\<close> is a plain object literal with seven own properties, read by
  \<^verbatim>\<open>CONTINENT_COLORS[continent] || DEFAULT_COLOR\<close>. A property read on a plain object
  that misses the own properties continues on \<^verbatim>\<open>Object.prototype\<close>, whose members
  (functions, and the prototype itself under \<^verbatim>\<open>__proto__\<close>) are truthy. The value of
  the read is therefore one of three things.
\<close>

datatype jsval =
    JColor Color        \<comment> \<open>an own property: a \<^verbatim>\<open>THREE.Color\<close>\<close>
  | JInherited string   \<comment> \<open>a member inherited from \<^verbatim>\<open>Object.prototype\<close>\<close>
  | JUndefined

definition CONTINENT_COLORS :: "(string \<times> Color) list" where
  "CONTINENT_COLORS =
     [(''Africa'', hexColor 0xff 0x88 0x00),
      (''Asia'', hexColor 0x00 0xf2 0xff),
      (''Europe'', hexColor 0x00 0xff 0x00),
      (''North America'', hexColor 0xff 0x00 0xff),
      (''South America'', hexColor 0xff 0xff 0x00),
      (''Oceania'', hexColor 0xff 0x00 0x88),
      (''Antarctica'', hexColor 0xff 0xff 0xff)]"

definition DEFAULT_COLOR :: Color where
  "DEFAULT_COLOR = hexColor 0x44 0x44 0x44"

definition Object_prototype_members :: "string list" where
  "Object_prototype_members =
     [''constructor'', ''__proto__'', ''hasOwnProperty'', ''isPrototypeOf'',
      ''propertyIsEnumerable'', ''toLocaleString'', ''toString'', ''valueOf'',
      ''__defineGetter__'', ''__defineSetter__'', ''__lookupGetter__'',
      ''__lookupSetter__'']"

definition CONTINENT_COLORS_get :: "string \<Rightarrow> jsval" where
  \<comment> \<open>\<^verbatim>\<open>CONTINENT_COLORS[name]\<close>\<close>
  "CONTINENT_COLORS_get name =
     (case map_of CONTINENT_COLORS name of
        Some c \<Rightarrow> JColor c
      | None \<Rightarrow> if name \<in> set Object_prototype_members then JInherited name else JUndefined)"

fun truthy :: "jsval \<Rightarrow> bool" where
  "truthy (JColor c) = True"
| "truthy (JInherited m) = True"
| "truthy JUndefined = False"

definition js_or :: "jsval \<Rightarrow> jsval \<Rightarrow> jsval" where
  \<comment> \<open>\<^verbatim>\<open>a || b\<close> on objects\<close>
  "js_or a b = (if truthy a then a else b)"

text \<open>
  The properties of a feature: \<^verbatim>\<open>None\<close> is an absent (undefined) property. A string is
  falsy exactly when it is empty.
\<close>

record properties =
  CONTINENT :: "string option"
  continent :: "string option"

definition str_or :: "string option \<Rightarrow> string option \<Rightarrow> string option" where
  \<comment> \<open>\<^verbatim>\<open>a || b\<close> on optional strings\<close>
  "str_or a b = (case a of Some s \<Rightarrow> (if s \<noteq> [] then Some s else b) | None \<Rightarrow> b)"

definition continentName :: "properties \<Rightarrow> string" where
  \<comment> \<open>\<^verbatim>\<open>properties.CONTINENT || properties.continent || 'Unknown'\<close>\<close>
  "continentName props =
     (case str_or (str_or (CONTINENT props) (continent props)) (Some ''Unknown'') of
        Some s \<Rightarrow> s | None \<Rightarrow> [])"

definition colorOf :: "string \<Rightarrow> jsval" where
  \<comment> \<open>\<^verbatim>\<open>CONTINENT_COLORS[continent] || DEFAULT_COLOR\<close>\<close>
  "colorOf name = js_or (CONTINENT_COLORS_get name) (JColor DEFAULT_COLOR)"

definition continentColor :: "properties \<Rightarrow> jsval" where
  "continentColor props = colorOf (continentName props)"

text \<open>
  Reading a channel of \<^verbatim>\<open>continentColor\<close>: a colour has it, an inherited member of
  \<^verbatim>\<open>Object.prototype\<close> does not (\<^verbatim>\<open>undefined\<close>). A slot of the \<^verbatim>\<open>colors\<close> array is
  \<^verbatim>\<open>Some v\<close> for the number \<^verbatim>\<open>v\<close> and \<^verbatim>\<open>None\<close> for a non-number (\<^verbatim>\<open>undefined\<close>, or the
  NaN that \<^verbatim>\<open>undefined * 0.3\<close> gives).
\<close>

fun channel :: "(Color \<Rightarrow> real) \<Rightarrow> jsval \<Rightarrow> real option" where
  "channel f (JColor c) = Some (f c)"
| "channel f (JInherited m) = None"
| "channel f JUndefined = None"

definition dim :: "real option \<Rightarrow> real option" where
  \<comment> \<open>\<^verbatim>\<open>v * 0.3\<close>\<close>
  "dim v = map_option (\<lambda>n. n * 0.3) v"

section \<open>The scanline tessellator: \<^verbatim>\<open>addLines\<close>\<close>

text \<open>
  A ring is the source's \<^verbatim>\<open>[number, number][]\<close>: pairs \<^verbatim>\<open>[lng, lat]\<close>. The two arrays
  \<^verbatim>\<open>points\<close> and \<^verbatim>\<open>colors\<close> that the closure \<^verbatim>\<open>addLines\<close> pushes to are the state,
  passed explicitly; \<^verbatim>\<open>colors\<close> is flat, three numbers per point.
\<close>

type_synonym ring = "(real \<times> real) list"

record buffer =
  points :: "Vector3 list"
  colors :: "real option list"

definition emptyBuffer :: buffer where
  "emptyBuffer = \<lparr>points = [], colors = []\<rparr>"

subsection \<open>Outline pass\<close>

text \<open>
  \<^verbatim>\<open>
  for (let i = 0; i < polygon.length - 1; i++) {
    const p1 = latLngToVector3(polygon[i][1], polygon[i][0], GLOBE_RADIUS + 0.02);
    const p2 = latLngToVector3(polygon[i + 1][1], polygon[i + 1][0], GLOBE_RADIUS + 0.02);
    points.push(p1, p2);
    colors.push(c.r, c.g, c.b, c.r, c.g, c.b);
  }
  \<close>
  The loop runs over \<open>i = 0, \<dots>, length - 2\<close>; for the empty ring the bound is \<open>-1\<close> and
  the body never runs, which the truncating subtraction of \<^typ>\<open>nat\<close> gives as well.
  Both reads \<open>polygon ! i\<close> and \<open>polygon ! (i + 1)\<close> are in range inside the loop.
\<close>

definition outlineStep :: "jsval \<Rightarrow> ring \<Rightarrow> nat \<Rightarrow> buffer \<Rightarrow> buffer" where
  "outlineStep c polygon i buf =
     (let p1 = latLngToVector3 (snd (polygon ! i)) (fst (polygon ! i)) (GLOBE_RADIUS + 0.02);
          p2 = latLngToVector3 (snd (polygon ! (i + 1))) (fst (polygon ! (i + 1)))
                 (GLOBE_RADIUS + 0.02)
      in \<lparr>points = points buf @ [p1, p2],
          colors = colors buf @
            [channel chan_r c, channel chan_g c, channel chan_b c,
             channel chan_r c, channel chan_g c, channel chan_b c]\<rparr>)"

definition outlinePass :: "jsval \<Rightarrow> ring \<Rightarrow> buffer \<Rightarrow> buffer" where
  "outlinePass c polygon buf = fold (outlineStep c polygon) [0..<length polygon - 1] buf"

subsection \<open>Bounding pass\<close>

text \<open>
  \<^verbatim>\<open>
  let minX = 180, maxX = -180, minY = 90, maxY = -90;
  polygon.forEach(([lng, lat]) => {
    if (lng < minX) minX = lng; if (lng > maxX) maxX = lng;
    if (lat < minY) minY = lat; if (lat > maxY) maxY = lat;
  });
  \<close>
\<close>

record bbox =
  minX :: real
  maxX :: real
  minY :: real
  maxY :: real

definition initialBox :: bbox where
  "initialBox = \<lparr>minX = 180, maxX = - 180, minY = 90, maxY = - 90\<rparr>"

definition boundsStep :: "real \<times> real \<Rightarrow> bbox \<Rightarrow> bbox" where
  "boundsStep v box =
     (let lng = fst v; lat = snd v;
          box1 = (if lng < minX box then box\<lparr>minX := lng\<rparr> else box);
          box2 = (if lng > maxX box1 then box1\<lparr>maxX := lng\<rparr> else box1);
          box3 = (if lat < minY box2 then box2\<lparr>minY := lat\<rparr> else box2);
          box4 = (if lat > maxY box3 then box3\<lparr>maxY := lat\<rparr> else box3)
      in box4)"

definition bounds :: "ring \<Rightarrow> bbox" where
  "bounds polygon = fold boundsStep polygon initialBox"

subsection \<open>Grid pass\<close>

text \<open>
  The edge test and the crossing longitude of one scanline:
  \<^verbatim>\<open>
  const intersections: number[] = [];
  for (let i = 0; i < polygon.length - 1; i++) {
    const [lng1, lat1] = polygon[i];
    const [lng2, lat2] = polygon[i + 1];
    if ((lat1 <= lat && lat2 > lat) || (lat2 <= lat && lat1 > lat)) {
      const lng = lng1 + (lat - lat1) * (lng2 - lng1) / (lat2 - lat1);
      intersections.push(lng);
    }
  }
  \<close>
\<close>

definition edgeCrosses :: "real \<Rightarrow> real \<Rightarrow> real \<Rightarrow> bool" where
  "edgeCrosses lat1 lat2 lat \<longleftrightarrow> (lat1 \<le> lat \<and> lat2 > lat) \<or> (lat2 \<le> lat \<and> lat1 > lat)"

definition crossingLng :: "real \<times> real \<Rightarrow> real \<times> real \<Rightarrow> real \<Rightarrow> real" where
  "crossingLng v1 v2 lat =
     (let lng1 = fst v1; lat1 = snd v1; lng2 = fst v2; lat2 = snd v2
      in lng1 + (lat - lat1) * (lng2 - lng1) / (lat2 - lat1))"

definition intersectStep :: "ring \<Rightarrow> real \<Rightarrow> nat \<Rightarrow> real list \<Rightarrow> real list" where
  "intersectStep polygon lat i intersections =
     (if edgeCrosses (snd (polygon ! i)) (snd (polygon ! (i + 1))) lat
      then intersections @ [crossingLng (polygon ! i) (polygon ! (i + 1)) lat]
      else intersections)"

definition intersectionsAt :: "ring \<Rightarrow> real \<Rightarrow> real list" where
  "intersectionsAt polygon lat = fold (intersectStep polygon lat) [0..<length polygon - 1] []"

text \<open>
  The crossings are sorted ascending (\<^verbatim>\<open>intersections.sort((a, b) => a - b)\<close>) and paired:
  \<^verbatim>\<open>
  for (let i = 0; i < intersections.length; i += 2) {
    if (intersections[i+1] !== undefined) {
      const p1 = latLngToVector3(lat, intersections[i], GLOBE_RADIUS + 0.01);
      const p2 = latLngToVector3(lat, intersections[i+1], GLOBE_RADIUS + 0.01);
      points.push(p1, p2);
      colors.push(c.r * 0.3, c.g * 0.3, c.b * 0.3, c.r * 0.3, c.g * 0.3, c.b * 0.3);
    }
  }
  \<close>
  The read \<^verbatim>\<open>intersections[i+1]\<close> is \<^verbatim>\<open>undefined\<close> exactly when one element is left.
\<close>

definition pushChord :: "jsval \<Rightarrow> real \<Rightarrow> real \<Rightarrow> real \<Rightarrow> buffer \<Rightarrow> buffer" where
  "pushChord c lat lngA lngB buf =
     (let p1 = latLngToVector3 lat lngA (GLOBE_RADIUS + 0.01);
          p2 = latLngToVector3 lat lngB (GLOBE_RADIUS + 0.01)
      in \<lparr>points = points buf @ [p1, p2],
          colors = colors buf @
            [dim (channel chan_r c), dim (channel chan_g c), dim (channel chan_b c),
             dim (channel chan_r c), dim (channel chan_g c), dim (channel chan_b c)]\<rparr>)"

fun chordLoop :: "jsval \<Rightarrow> real \<Rightarrow> real list \<Rightarrow> buffer \<Rightarrow> buffer" where
  "chordLoop c lat (lngA # lngB # rest) buf = chordLoop c lat rest (pushChord c lat lngA lngB buf)"
| "chordLoop c lat [lngA] buf = buf"
| "chordLoop c lat [] buf = buf"

definition gridLine :: "jsval \<Rightarrow> ring \<Rightarrow> real \<Rightarrow> buffer \<Rightarrow> buffer" where
  \<comment> \<open>the body of the scanline loop, for one \<^verbatim>\<open>lat\<close>\<close>
  "gridLine c polygon lat buf = chordLoop c lat (sort (intersectionsAt polygon lat)) buf"

text \<open>
  The scanline loop
  \<^verbatim>\<open>for (let lat = Math.ceil(minY / gridStep) * gridStep; lat <= maxY; lat += gridStep)\<close>
  ends only when the step moves \<^verbatim>\<open>lat\<close> past \<^verbatim>\<open>maxY\<close>: with the step as a parameter it
  is a partial function, and \<^verbatim>\<open>None\<close> is the loop that never ends.
\<close>

partial_function (option) gridLoop ::
  "real \<Rightarrow> jsval \<Rightarrow> ring \<Rightarrow> real \<Rightarrow> real \<Rightarrow> buffer \<Rightarrow> buffer option" where
  "gridLoop step c polygon hi lat buf =
     (if lat \<le> hi then gridLoop step c polygon hi (lat + step) (gridLine c polygon lat buf)
      else Some buf)"

definition firstScanline :: "real \<Rightarrow> real \<Rightarrow> real" where
  \<comment> \<open>\<^verbatim>\<open>Math.ceil(minY / gridStep) * gridStep\<close>\<close>
  "firstScanline step lo = of_int \<lceil>lo / step\<rceil> * step"

definition addLinesStep :: "real \<Rightarrow> jsval \<Rightarrow> ring \<Rightarrow> buffer \<Rightarrow> buffer option" where
  \<comment> \<open>\<^verbatim>\<open>addLines\<close> with the local constant \<^verbatim>\<open>gridStep\<close> as a parameter\<close>
  "addLinesStep step c polygon buf =
     (let buf1 = outlinePass c polygon buf;
          box = bounds polygon
      in gridLoop step c polygon (maxY box) (firstScanline step (minY box)) buf1)"

definition gridStep :: real where
  "gridStep = 2.0"

definition addLines :: "jsval \<Rightarrow> ring \<Rightarrow> buffer \<Rightarrow> buffer option" where
  "addLines c polygon buf = addLinesStep gridStep c polygon buf"

section \<open>The boundary mesh builder: the \<^verbatim>\<open>then\<close> callback of \<^verbatim>\<open>CountryOutlines\<close>\<close>

text \<open>
  A feature is read through \<^verbatim>\<open>feature.geometry\<close> (\<^verbatim>\<open>.type\<close>, \<^verbatim>\<open>.coordinates\<close>) and
  \<^verbatim>\<open>feature.properties\<close>; \<^verbatim>\<open>None\<close> is an absent member. The coordinates of a
  \<^verbatim>\<open>Polygon\<close> are an array of rings, those of a \<^verbatim>\<open>MultiPolygon\<close> an array of arrays of
  rings; coordinates nested otherwise than their type says are outside this model. Any
  other type (or none) is \<^verbatim>\<open>OtherGeometry\<close>, whose coordinates the code never touches.

  Reading a member of \<^verbatim>\<open>undefined\<close> throws a \<^verbatim>\<open>TypeError\<close>; the string names the
  expression that throws.
\<close>

datatype Geometry =
    Polygon "ring list option"
  | MultiPolygon "ring list list option"
  | OtherGeometry "string option"

record feature =
  geometry :: "Geometry option"
  properties :: "properties option"

datatype error = TypeError string

text \<open>
  \<^verbatim>\<open>coords.forEach((polygon) => addLines(polygon))\<close> and, for a \<^verbatim>\<open>MultiPolygon\<close>,
  \<^verbatim>\<open>coords.forEach((multiPolygon) => { multiPolygon.forEach((polygon) => addLines(polygon)); })\<close>.
\<close>

fun forEachRing :: "jsval \<Rightarrow> ring list \<Rightarrow> buffer \<Rightarrow> buffer option" where
  "forEachRing c [] buf = Some buf"
| "forEachRing c (polygon # rest) buf =
     (case addLines c polygon buf of None \<Rightarrow> None | Some buf1 \<Rightarrow> forEachRing c rest buf1)"

fun forEachPolygon :: "jsval \<Rightarrow> ring list list \<Rightarrow> buffer \<Rightarrow> buffer option" where
  "forEachPolygon c [] buf = Some buf"
| "forEachPolygon c (multiPolygon # rest) buf =
     (case forEachRing c multiPolygon buf of None \<Rightarrow> None
      | Some buf1 \<Rightarrow> forEachPolygon c rest buf1)"

text \<open>
  The body of \<^verbatim>\<open>data.features.forEach\<close>:
  \<^verbatim>\<open>
  const { geometry: geo, properties } = feature;
  const type = geo.type;
  const coords = geo.coordinates;
  const continent = properties.CONTINENT || properties.continent || 'Unknown';
  const continentColor = CONTINENT_COLORS[continent] || DEFAULT_COLOR;
  ...
  if (type === 'Polygon') { coords.forEach(...) }
  else if (type === 'MultiPolygon') { coords.forEach(...) }
  \<close>
  The result is \<^verbatim>\<open>None\<close> when a scanline loop never ends, \<^verbatim>\<open>Some (Inl e)\<close> when the body
  throws \<^verbatim>\<open>e\<close>, and \<^verbatim>\<open>Some (Inr buf)\<close> with the arrays after the body otherwise.
\<close>

definition processFeature :: "feature \<Rightarrow> buffer \<Rightarrow> (error + buffer) option" where
  "processFeature f buf =
     (case geometry f of
        None \<Rightarrow> Some (Inl (TypeError ''geo.type''))
      | Some geo \<Rightarrow>
          (case properties f of
             None \<Rightarrow> Some (Inl (TypeError ''properties.CONTINENT''))
           | Some props \<Rightarrow>
               (let c = continentColor props in
                case geo of
                  Polygon coords \<Rightarrow>
                    (case coords of
                       None \<Rightarrow> Some (Inl (TypeError ''coords.forEach''))
                     | Some rings \<Rightarrow> map_option Inr (forEachRing c rings buf))
                | MultiPolygon coords \<Rightarrow>
                    (case coords of
                       None \<Rightarrow> Some (Inl (TypeError ''coords.forEach''))
                     | Some polys \<Rightarrow> map_option Inr (forEachPolygon c polys buf))
                | OtherGeometry t \<Rightarrow> Some (Inr buf))))"

text \<open>An exception thrown by the body ends \<^verbatim>\<open>forEach\<close>: no later feature is visited.\<close>

fun forEachFeature :: "feature list \<Rightarrow> buffer \<Rightarrow> (error + buffer) option" where
  "forEachFeature [] buf = Some (Inr buf)"
| "forEachFeature (f # rest) buf =
     (case processFeature f buf of
        None \<Rightarrow> None
      | Some (Inl e) \<Rightarrow> Some (Inl e)
      | Some (Inr buf1) \<Rightarrow> forEachFeature rest buf1)"

definition build :: "feature list \<Rightarrow> (error + buffer) option" where
  \<comment> \<open>\<^verbatim>\<open>points\<close> and \<^verbatim>\<open>colors\<close> start empty\<close>
  "build features = forEachFeature features emptyBuffer"

text \<open>
  After the loop the callback builds the geometry from \<^verbatim>\<open>points\<close>, attaches \<^verbatim>\<open>colors\<close>
  as an attribute of item size 3 and calls \<^verbatim>\<open>setGeometry\<close>. An exception skips all of
  that: \<^verbatim>\<open>.catch\<close> logs it, and the state \<^verbatim>\<open>geometry\<close> keeps its initial \<^verbatim>\<open>null\<close>.
\<close>

definition geometryState :: "feature list \<Rightarrow> buffer option" where
  "geometryState features =
     (case build features of Some (Inr buf) \<Rightarrow> Some buf | Some (Inl e) \<Rightarrow> None | None \<Rightarrow> None)"

definition colorCount :: "buffer \<Rightarrow> nat" where
  \<comment> \<open>the number of items of the colour attribute, three numbers each\<close>
  "colorCount buf = length (colors buf) div 3"

section \<open>Notions used to state the properties\<close>

text \<open>
  These definitions are not functions of the source: they describe what its loops push,
  and each is tied to the loops by a lemma below.

  The outline of a ring: the two projected ends of every edge \<open>(i, i + 1)\<close>, in order.
\<close>

definition outlineEnds :: "ring \<Rightarrow> nat \<Rightarrow> Vector3 list" where
  "outlineEnds polygon i =
     [latLngToVector3 (snd (polygon ! i)) (fst (polygon ! i)) (GLOBE_RADIUS + 0.02),
      latLngToVector3 (snd (polygon ! (i + 1))) (fst (polygon ! (i + 1))) (GLOBE_RADIUS + 0.02)]"

definition outlinePoints :: "ring \<Rightarrow> Vector3 list" where
  "outlinePoints polygon = concat (map (outlineEnds polygon) [0..<length polygon - 1])"

text \<open>
  The scanlines visited for a step and a latitude interval: the first one and its
  successors, as many as fit below the upper end.
\<close>

definition scanlinesFrom :: "real \<Rightarrow> real \<Rightarrow> real \<Rightarrow> real list" where
  "scanlinesFrom step lat hi =
     map (\<lambda>k. lat + real k * step) [0..<nat (\<lfloor>(hi - lat) / step\<rfloor> + 1)]"

definition scanlines :: "real \<Rightarrow> ring \<Rightarrow> real list" where
  "scanlines step polygon =
     scanlinesFrom step (firstScanline step (minY (bounds polygon))) (maxY (bounds polygon))"

text \<open>
  A chord is a scanline latitude with the two longitudes of a pair of crossings; its
  ends are the projections at the grid radius.
\<close>

fun pairUp :: "real list \<Rightarrow> (real \<times> real) list" where
  "pairUp (lngA # lngB # rest) = (lngA, lngB) # pairUp rest"
| "pairUp [lngA] = []"
| "pairUp [] = []"

definition chordsAt :: "ring \<Rightarrow> real \<Rightarrow> (real \<times> real \<times> real) list" where
  "chordsAt polygon lat = map (\<lambda>ab. (lat, fst ab, snd ab)) (pairUp (sort (intersectionsAt polygon lat)))"

definition gridChords :: "real \<Rightarrow> ring \<Rightarrow> (real \<times> real \<times> real) list" where
  "gridChords step polygon = concat (map (chordsAt polygon) (scanlines step polygon))"

definition chordEnds :: "real \<times> real \<times> real \<Rightarrow> Vector3 list" where
  "chordEnds ch =
     [latLngToVector3 (fst ch) (fst (snd ch)) (GLOBE_RADIUS + 0.01),
      latLngToVector3 (fst ch) (snd (snd ch)) (GLOBE_RADIUS + 0.01)]"

definition gridPoints :: "real \<Rightarrow> ring \<Rightarrow> Vector3 list" where
  "gridPoints step polygon = concat (map chordEnds (gridChords step polygon))"

text \<open>The least and the greatest latitude of a ring.\<close>

definition minLat :: "ring \<Rightarrow> real" where
  "minLat polygon = Min (set (map snd polygon))"

definition maxLat :: "ring \<Rightarrow> real" where
  "maxLat polygon = Max (set (map snd polygon))"

text \<open>
  The edge test in the words of the specification: exactly one end strictly below the
  scanline, the other on or above it.
\<close>

definition spec_edgeCrosses :: "real \<Rightarrow> real \<Rightarrow> real \<Rightarrow> bool" where
  "spec_edgeCrosses lat1 lat2 lat \<longleftrightarrow> (lat1 < lat \<and> lat2 \<ge> lat) \<or> (lat2 < lat \<and> lat1 \<ge> lat)"

text \<open>The invariant of the segment buffer: three colour numbers per point, points in pairs.\<close>

definition bufferInv :: "buffer \<Rightarrow> bool" where
  "bufferInv buf \<longleftrightarrow> length (colors buf) = 3 * length (points buf) \<and> even (length (points buf))"

text \<open>
  A feature the callback cannot read: no \<^verbatim>\<open>geometry\<close>, or a polygon or multi-polygon
  with no \<^verbatim>\<open>coordinates\<close>.
\<close>

fun malformed :: "feature \<Rightarrow> bool" where
  "malformed f =
     (case geometry f of
        None \<Rightarrow> True
      | Some (Polygon coords) \<Rightarrow> coords = None
      | Some (MultiPolygon coords) \<Rightarrow> coords = None
      | Some (OtherGeometry t) \<Rightarrow> False)"

text \<open>
  The combined buffer of a feature collection. A ring contributes its outline points and
  then its grid points, with six colour numbers per segment: the feature's colour at
  full intensity for an outline segment, dimmed for a chord. A feature contributes its
  rings in order (those of a multi-polygon polygon by polygon), a feature of another
  geometry type contributes nothing, and the features follow each other in the order of
  the collection.
\<close>

definition fullColors :: "jsval \<Rightarrow> real option list" where
  "fullColors c =
     [channel chan_r c, channel chan_g c, channel chan_b c,
      channel chan_r c, channel chan_g c, channel chan_b c]"

definition dimColors :: "jsval \<Rightarrow> real option list" where
  "dimColors c =
     [dim (channel chan_r c), dim (channel chan_g c), dim (channel chan_b c),
      dim (channel chan_r c), dim (channel chan_g c), dim (channel chan_b c)]"

definition ringPoints :: "ring \<Rightarrow> Vector3 list" where
  "ringPoints polygon = outlinePoints polygon @ gridPoints gridStep polygon"

definition ringColors :: "jsval \<Rightarrow> ring \<Rightarrow> real option list" where
  "ringColors c polygon =
     concat (map (\<lambda>i. fullColors c) [0..<length polygon - 1])
     @ concat (map (\<lambda>ch. dimColors c) (gridChords gridStep polygon))"

definition featureRings :: "feature \<Rightarrow> ring list" where
  "featureRings f =
     (case geometry f of
        Some (Polygon (Some rings)) \<Rightarrow> rings
      | Some (MultiPolygon (Some polys)) \<Rightarrow> concat polys
      | _ \<Rightarrow> [])"

definition featureColor :: "feature \<Rightarrow> jsval" where
  "featureColor f = (case properties f of Some props \<Rightarrow> continentColor props | None \<Rightarrow> JUndefined)"

definition featurePoints :: "feature \<Rightarrow> Vector3 list" where
  "featurePoints f = concat (map ringPoints (featureRings f))"

definition featureColors :: "feature \<Rightarrow> real option list" where
  "featureColors f = concat (map (ringColors (featureColor f)) (featureRings f))"

definition extendBuffer :: "buffer \<Rightarrow> Vector3 list \<Rightarrow> real option list \<Rightarrow> buffer" where
  "extendBuffer buf ps cs = \<lparr>points = points buf @ ps, colors = colors buf @ cs\<rparr>"

definition combinedBuffer :: "feature list \<Rightarrow> buffer" where
  "combinedBuffer features =
     \<lparr>points = concat (map featurePoints features), colors = concat (map featureColors features)\<rparr>"

text \<open>
  Rings and features of the scenarios: the open square of the specification's scenario,
  the same square closed by repeating its first vertex, and four features.
\<close>

definition openSquare :: ring where
  "openSquare = [(0, 0), (10, 0), (10, 10), (0, 10)]"

definition closedSquare :: ring where
  "closedSquare = [(0, 0), (10, 0), (10, 10), (0, 10), (0, 0)]"

definition noGeometry :: feature where
  "noGeometry = \<lparr>geometry = None,
     properties = Some \<lparr>CONTINENT = Some ''Asia'', continent = None\<rparr>\<rparr>"

definition noCoordinates :: feature where
  "noCoordinates = \<lparr>geometry = Some (Polygon None),
     properties = Some \<lparr>CONTINENT = Some ''Asia'', continent = None\<rparr>\<rparr>"

definition pointFeature :: feature where
  "pointFeature = \<lparr>geometry = Some (OtherGeometry (Some ''Point'')),
     properties = Some \<lparr>CONTINENT = Some ''Europe'', continent = None\<rparr>\<rparr>"

definition smallSquare :: feature where
  "smallSquare = \<lparr>geometry = Some (Polygon (Some [[(0, 0), (2, 0), (2, 2), (0, 2), (0, 0)]])),
     properties = Some \<lparr>CONTINENT = Some ''Asia'', continent = None\<rparr>\<rparr>"

section \<open>The projector\<close>

lemma sphere_identity:
  "(- r * sin p * cos t)\<^sup>2 + (r * cos p)\<^sup>2 + (r * sin p * sin t)\<^sup>2 = (r::real)\<^sup>2"
proof -
  define A where "A = (r * sin p)\<^sup>2"
  have 1: "(- r * sin p * cos t)\<^sup>2 = A * (cos t)\<^sup>2"
    by (simp add: A_def power_mult_distrib)
  have 2: "(r * sin p * sin t)\<^sup>2 = A * (sin t)\<^sup>2"
    by (simp add: A_def power_mult_distrib)
  have 3: "A * (cos t)\<^sup>2 + A * (sin t)\<^sup>2 = A"
    by (simp flip: distrib_left)
  have 4: "A + (r * cos p)\<^sup>2 = r\<^sup>2"
    by (simp add: A_def power_mult_distrib flip: distrib_left)
  from 1 2 3 4 show ?thesis by linarith
qed

text \<open>
  C5: for a latitude in \<open>[-90, 90]\<close>, a longitude in \<open>[-180, 180]\<close> and a positive radius,
  the projector returns \<open>x = - radius * sin phi * cos theta\<close>, \<open>y = radius * cos phi\<close>,
  \<open>z = radius * sin phi * sin theta\<close> with \<open>phi = (90 - lat) * pi / 180\<close> and
  \<open>theta = (lng + 180) * pi / 180\<close>, and the point lies at Euclidean distance \<open>radius\<close>
  from the origin (in exact arithmetic).
\<close>

theorem latLngToVector3_on_sphere:
  assumes "- 90 \<le> lat" "lat \<le> 90" "- 180 \<le> lng" "lng \<le> 180" "0 < radius"
  shows "vx (latLngToVector3 lat lng radius)
           = - radius * sin ((90 - lat) * (pi / 180)) * cos ((lng + 180) * (pi / 180))
       \<and> vy (latLngToVector3 lat lng radius) = radius * cos ((90 - lat) * (pi / 180))
       \<and> vz (latLngToVector3 lat lng radius)
           = radius * sin ((90 - lat) * (pi / 180)) * sin ((lng + 180) * (pi / 180))
       \<and> norm3 (latLngToVector3 lat lng radius) = radius"
proof -
  have "norm3 (latLngToVector3 lat lng radius) = sqrt (radius\<^sup>2)"
    unfolding norm3_def latLngToVector3_def Let_def Vector3.sel
    by (simp only: sphere_identity)
  with assms(5) show ?thesis
    by (simp add: latLngToVector3_def Let_def)
qed

theorem latLngToVector3_on_sphere_witness:
  "- 90 \<le> (90::real) \<and> (90::real) \<le> 90 \<and> - 180 \<le> (- 180::real) \<and> (- 180::real) \<le> 180
   \<and> 0 < GLOBE_RADIUS
   \<and> latLngToVector3 90 (- 180) GLOBE_RADIUS = Vector3 0 2 0
   \<and> norm3 (latLngToVector3 90 (- 180) GLOBE_RADIUS) = GLOBE_RADIUS"
  using latLngToVector3_on_sphere [of 90 "- 180" GLOBE_RADIUS]
  by (simp add: GLOBE_RADIUS_def latLngToVector3_def)

section \<open>The continent palette\<close>

lemma colorOf_table:
  "colorOf ''Africa'' = JColor (hexColor 0xff 0x88 0x00)"
  "colorOf ''Asia'' = JColor (hexColor 0x00 0xf2 0xff)"
  "colorOf ''Europe'' = JColor (hexColor 0x00 0xff 0x00)"
  "colorOf ''North America'' = JColor (hexColor 0xff 0x00 0xff)"
  "colorOf ''South America'' = JColor (hexColor 0xff 0xff 0x00)"
  "colorOf ''Oceania'' = JColor (hexColor 0xff 0x00 0x88)"
  "colorOf ''Antarctica'' = JColor (hexColor 0xff 0xff 0xff)"
  by (simp_all add: colorOf_def CONTINENT_COLORS_get_def CONTINENT_COLORS_def js_or_def)

lemma colorOf_fallback:
  assumes "name \<notin> fst ` set CONTINENT_COLORS" "name \<notin> set Object_prototype_members"
  shows "colorOf name = JColor DEFAULT_COLOR"
proof -
  from assms(1) have "map_of CONTINENT_COLORS name = None"
    by (simp add: map_of_eq_None_iff)
  with assms(2) show ?thesis
    by (simp add: colorOf_def CONTINENT_COLORS_get_def js_or_def)
qed

lemma continentColor_absent:
  "continentColor \<lparr>CONTINENT = None, continent = None\<rparr> = JColor DEFAULT_COLOR"
  "continentColor \<lparr>CONTINENT = Some [], continent = Some []\<rparr> = JColor DEFAULT_COLOR"
  by (simp_all add: continentColor_def continentName_def str_or_def colorOf_def
      CONTINENT_COLORS_get_def CONTINENT_COLORS_def Object_prototype_members_def js_or_def)

text \<open>
  C7: each of the seven continent names gets its assigned colour (\<open>colorOf_table\<close>), and
  a name that is neither one of the seven nor a member of \<^verbatim>\<open>Object.prototype\<close> gets the
  fallback gray, as do an absent and an empty name (\<open>colorOf_fallback\<close>,
  \<open>continentColor_absent\<close>). For a name that \<^verbatim>\<open>Object.prototype\<close> defines the claim
  fails: with \<^verbatim>\<open>properties.CONTINENT = 'constructor'\<close> the read
  \<^verbatim>\<open>CONTINENT_COLORS['constructor']\<close> is the inherited, truthy \<^verbatim>\<open>Object\<close> function, so
  \<^verbatim>\<open>|| DEFAULT_COLOR\<close> is not taken and the colour channels read from it are undefined.
\<close>

theorem colorOf_inherited_member:
  "continentName \<lparr>CONTINENT = Some ''constructor'', continent = None\<rparr> = ''constructor''
   \<and> colorOf ''constructor'' = JInherited ''constructor''
   \<and> colorOf ''constructor'' \<noteq> JColor DEFAULT_COLOR
   \<and> channel chan_r (colorOf ''constructor'') = None"
  by (simp add: continentName_def str_or_def colorOf_def CONTINENT_COLORS_get_def
      CONTINENT_COLORS_def Object_prototype_members_def js_or_def)

section \<open>The outline pass\<close>

lemma fold_outlineStep_points:
  "points (fold (outlineStep c polygon) idxs buf) = points buf @ concat (map (outlineEnds polygon) idxs)"
  by (induction idxs arbitrary: buf) (simp_all add: outlineStep_def outlineEnds_def Let_def)

lemma fold_outlineStep_colors:
  "length (colors (fold (outlineStep c polygon) idxs buf)) = length (colors buf) + 6 * length idxs"
  by (induction idxs arbitrary: buf) (simp_all add: outlineStep_def Let_def)

lemma outlinePass_points: "points (outlinePass c polygon buf) = points buf @ outlinePoints polygon"
  by (simp add: outlinePass_def outlinePoints_def fold_outlineStep_points)

lemma length_concat_outlineEnds:
  "length (concat (map (outlineEnds polygon) idxs)) = 2 * length idxs"
  by (induction idxs) (simp_all add: outlineEnds_def)

lemma length_outlinePoints: "length (outlinePoints polygon) = 2 * (length polygon - 1)"
  by (simp add: outlinePoints_def length_concat_outlineEnds)

lemma concat_pairs_nth:
  assumes "\<And>i. length (f i) = 2" "k < n" "j < 2"
  shows "concat (map f [0..<n]) ! (2 * k + j) = f k ! j"
  using assms(2)
proof (induction n)
  case 0
  then show ?case by simp
next
  case (Suc n)
  have len: "length (concat (map f [0..<n])) = 2 * n"
    by (induction n) (simp_all add: assms(1))
  show ?case
  proof (cases "k < n")
    case True
    with Suc.IH len assms(3) show ?thesis by (simp add: nth_append)
  next
    case False
    with Suc.prems have "k = n" by simp
    with len assms(3) show ?thesis by (simp add: nth_append)
  qed
qed

lemma outlinePoints_nth:
  assumes "k < length polygon - 1" "j < 2"
  shows "outlinePoints polygon ! (2 * k + j) = outlineEnds polygon k ! j"
  unfolding outlinePoints_def
proof (rule concat_pairs_nth)
  show "length (outlineEnds polygon i) = 2" for i by (simp add: outlineEnds_def)
  show "k < length polygon - 1" by (rule assms(1))
  show "j < 2" by (rule assms(2))
qed

text \<open>
  C10: in a ring with at least two edges, the second point of outline segment \<open>k\<close> and
  the first point of outline segment \<open>k + 1\<close> are both the projection of ring vertex
  \<open>k + 1\<close> at the outline radius, so consecutive outline segments share an end and the
  outline is a connected open polyline in ring order.
\<close>

theorem outline_connected:
  assumes "k + 2 < length polygon"
  shows "points (outlinePass c polygon buf) ! (length (points buf) + 2 * k + 1)
           = latLngToVector3 (snd (polygon ! (k + 1))) (fst (polygon ! (k + 1))) (GLOBE_RADIUS + 0.02)
       \<and> points (outlinePass c polygon buf) ! (length (points buf) + 2 * (k + 1))
           = latLngToVector3 (snd (polygon ! (k + 1))) (fst (polygon ! (k + 1))) (GLOBE_RADIUS + 0.02)"
proof -
  from assms have k: "k < length polygon - 1" and k1: "k + 1 < length polygon - 1" by simp_all
  have a: "outlinePoints polygon ! (2 * k + 1) = outlineEnds polygon k ! 1"
    by (rule outlinePoints_nth [OF k]) simp
  have b: "outlinePoints polygon ! (2 * (k + 1) + 0) = outlineEnds polygon (k + 1) ! 0"
    by (rule outlinePoints_nth [OF k1]) simp
  have "points (outlinePass c polygon buf) ! (length (points buf) + 2 * k + 1)
          = outlinePoints polygon ! (2 * k + 1)"
    by (simp add: outlinePass_points nth_append add.assoc)
  moreover have "points (outlinePass c polygon buf) ! (length (points buf) + 2 * (k + 1))
          = outlinePoints polygon ! (2 * (k + 1) + 0)"
    by (simp add: outlinePass_points nth_append)
  ultimately show ?thesis
    using a b by (simp add: outlineEnds_def)
qed

theorem outline_connected_witness:
  "(0::nat) + 2 < length [(0, 0), (10, 0), (10, 10::real)]
   \<and> points (outlinePass (JColor DEFAULT_COLOR) [(0, 0), (10, 0), (10, 10)] emptyBuffer) ! 1
       = latLngToVector3 0 10 (GLOBE_RADIUS + 0.02)
   \<and> points (outlinePass (JColor DEFAULT_COLOR) [(0, 0), (10, 0), (10, 10)] emptyBuffer) ! 2
       = latLngToVector3 0 10 (GLOBE_RADIUS + 0.02)"
  using outline_connected [of 0 "[(0, 0), (10, 0), (10, 10)]" "JColor DEFAULT_COLOR" emptyBuffer]
  by (simp add: emptyBuffer_def numeral_2_eq_2)

section \<open>The edge test\<close>

text \<open>
  C9: whenever the edge test succeeds for an edge and a scanline latitude, the two end
  latitudes of the edge differ, so the divisor \<open>lat2 - lat1\<close> of the interpolation is not
  zero, and the crossing longitude is the true quotient: multiplied by the divisor it
  gives back the dividend. The loop divides nowhere else, and only under this test.
\<close>

theorem crossing_divisor_nonzero:
  assumes "edgeCrosses (snd v1) (snd v2) lat"
  shows "snd v2 - snd v1 \<noteq> 0
       \<and> (crossingLng v1 v2 lat - fst v1) * (snd v2 - snd v1) = (lat - snd v1) * (fst v2 - fst v1)"
proof -
  from assms have d: "snd v2 - snd v1 \<noteq> 0"
    by (auto simp: edgeCrosses_def)
  then show ?thesis
    by (simp add: crossingLng_def Let_def)
qed

theorem crossing_divisor_nonzero_witness:
  "edgeCrosses (snd (0, 0)) (snd (10, 10)) 5 \<and> snd (10, 10 :: real) - snd (0, 0 :: real) \<noteq> (0 :: real)
   \<and> crossingLng (0, 0) (10, 10) 5 = 5"
  using crossing_divisor_nonzero [of "(0, 0)" "(10, 10)" 5]
  by (simp add: edgeCrosses_def)

lemma fold_intersectStep:
  "fold (intersectStep polygon lat) idxs acc =
     acc @ map (\<lambda>i. crossingLng (polygon ! i) (polygon ! (i + 1)) lat)
            (filter (\<lambda>i. edgeCrosses (snd (polygon ! i)) (snd (polygon ! (i + 1))) lat) idxs)"
  by (induction idxs arbitrary: acc) (simp_all add: intersectStep_def)

lemma edgeCrosses_exactly_one:
  "edgeCrosses lat1 lat2 lat \<longleftrightarrow> (lat1 \<le> lat) \<noteq> (lat2 \<le> lat)"
  by (auto simp: edgeCrosses_def)

text \<open>
  C2, as amended: the crossings of a scanline are the interpolated longitudes of
  exactly those edges \<open>(i, i + 1)\<close>, in ring order, of which exactly one end has a
  latitude \<open>\<le> lat\<close> (the other end lies strictly above the scanline).
\<close>

theorem intersectionsAt_half_open:
  "intersectionsAt polygon lat =
     map (\<lambda>i. crossingLng (polygon ! i) (polygon ! (i + 1)) lat)
       (filter (\<lambda>i. (snd (polygon ! i) \<le> lat) \<noteq> (snd (polygon ! (i + 1)) \<le> lat))
          [0..<length polygon - 1])"
  by (simp add: intersectionsAt_def fold_intersectStep edgeCrosses_exactly_one)

text \<open>
  The claim as written puts the closed end on the other side. An edge from latitude 5
  up to 10 is counted on the scanline 5 although neither end is strictly below it, and
  an edge from latitude 0 up to 5 is not counted although one end is strictly below and
  the other on the line.
\<close>

theorem edge_on_scanline_counterexample:
  "intersectionsAt [(0, 5), (10, 10)] 5 = [0] \<and> \<not> spec_edgeCrosses 5 10 5
   \<and> intersectionsAt [(0, 0), (10, 5)] 5 = [] \<and> spec_edgeCrosses 0 5 5"
  by (simp add: intersectionsAt_def intersectStep_def edgeCrosses_def crossingLng_def
      spec_edgeCrosses_def)

section \<open>The grid pass\<close>

lemma chordLoop_points:
  "points (chordLoop c lat xs buf)
     = points buf @ concat (map (\<lambda>ab. chordEnds (lat, fst ab, snd ab)) (pairUp xs))"
  by (induction c lat xs buf rule: chordLoop.induct) (simp_all add: pushChord_def chordEnds_def Let_def)

lemma gridLine_points:
  "points (gridLine c polygon lat buf) = points buf @ concat (map chordEnds (chordsAt polygon lat))"
  by (simp add: gridLine_def chordLoop_points chordsAt_def comp_def)

lemma fold_gridLine_points:
  "points (fold (gridLine c polygon) lats buf)
     = points buf @ concat (map chordEnds (concat (map (chordsAt polygon) lats)))"
  by (induction lats arbitrary: buf) (simp_all add: gridLine_points)

lemma floor_quot_neg: "0 < step \<Longrightarrow> \<lfloor>(hi - lat) / step\<rfloor> < 0 \<longleftrightarrow> hi < (lat::real)"
  by (simp add: floor_less_zero divide_less_0_iff)

lemma floor_quot_step:
  assumes "0 < (step::real)"
  shows "\<lfloor>(hi - (lat + step)) / step\<rfloor> = \<lfloor>(hi - lat) / step\<rfloor> - 1"
proof -
  have "(hi - (lat + step)) / step = (hi - lat) / step - 1"
    using assms by (simp add: field_simps)
  then show ?thesis by simp
qed

lemma scanlinesFrom_done: "0 < step \<Longrightarrow> hi < lat \<Longrightarrow> scanlinesFrom step lat hi = []"
proof -
  assume s: "0 < step" and h: "hi < lat"
  then have "\<lfloor>(hi - lat) / step\<rfloor> < 0" by (simp only: floor_quot_neg)
  then have "nat (\<lfloor>(hi - lat) / step\<rfloor> + 1) = 0" by linarith
  then show ?thesis by (simp only: scanlinesFrom_def upt_0 list.map)
qed

lemma scanlinesFrom_step:
  assumes s: "0 < step" and h: "lat \<le> hi"
  shows "scanlinesFrom step lat hi = lat # scanlinesFrom step (lat + step) hi"
proof -
  have nn: "\<not> \<lfloor>(hi - lat) / step\<rfloor> < 0" using floor_quot_neg [OF s, of hi lat] h by linarith
  define n where "n = nat (\<lfloor>(hi - (lat + step)) / step\<rfloor> + 1)"
  have n: "nat (\<lfloor>(hi - lat) / step\<rfloor> + 1) = Suc n"
    unfolding n_def floor_quot_step [OF s] using nn by linarith
  have "map (\<lambda>k. lat + real k * step) [0..<Suc n]
          = lat # map (\<lambda>k. lat + step + real k * step) [0..<n]"
  proof -
    have "[0..<Suc n] = 0 # map Suc [0..<n]"
      by (simp add: upt_conv_Cons map_Suc_upt del: upt_Suc)
    then show ?thesis
      by (simp add: comp_def algebra_simps del: upt_Suc)
  qed
  then show ?thesis
    unfolding scanlinesFrom_def n n_def [symmetric] .
qed

lemma gridLoop_closed:
  assumes s: "0 < step"
  shows "gridLoop step c polygon hi lat buf
           = Some (fold (gridLine c polygon) (scanlinesFrom step lat hi) buf)"
proof (induction "nat (\<lfloor>(hi - lat) / step\<rfloor> + 1)" arbitrary: lat buf)
  case 0
  then have "\<lfloor>(hi - lat) / step\<rfloor> < 0" by linarith
  with s have "hi < lat" by (simp only: floor_quot_neg)
  with s show ?case
    by (subst gridLoop.simps) (simp add: scanlinesFrom_done)
next
  case (Suc n)
  then have nn: "\<not> \<lfloor>(hi - lat) / step\<rfloor> < 0" by linarith
  then have h: "lat \<le> hi" using floor_quot_neg [OF s, of hi lat] by linarith
  have "n = nat (\<lfloor>(hi - (lat + step)) / step\<rfloor> + 1)"
    unfolding floor_quot_step [OF s] using Suc(2) by linarith
  from Suc(1) [OF this] h s show ?case
    by (subst gridLoop.simps) (simp add: scanlinesFrom_step)
qed

lemma gridStep_pos: "0 < gridStep"
  by (simp add: gridStep_def)

lemma addLinesStep_closed:
  assumes "0 < step"
  shows "addLinesStep step c polygon buf
           = Some (fold (gridLine c polygon) (scanlines step polygon) (outlinePass c polygon buf))"
  by (simp add: addLinesStep_def Let_def scanlines_def gridLoop_closed [OF assms])

lemma addLinesStep_points:
  assumes "0 < step"
  shows "\<exists>out. addLinesStep step c polygon buf = Some out
           \<and> points out = points buf @ outlinePoints polygon @ gridPoints step polygon"
  by (simp add: addLinesStep_closed [OF assms] fold_gridLine_points outlinePass_points
      gridPoints_def gridChords_def)

text \<open>
  C8: the tessellator emits the outline first, one segment for each edge \<open>(i, i + 1)\<close>
  with \<open>i\<close> from \<open>0\<close> to \<open>length - 2\<close> and none from the last vertex back to the first;
  the number of outline segments is \<open>max (length - 1) 0\<close> (two points each), which is
  zero for a ring with fewer than two vertices.
\<close>

theorem outline_segment_count:
  "(\<exists>out. addLines c polygon buf = Some out
       \<and> points out = points (outlinePass c polygon buf) @ gridPoints gridStep polygon)
   \<and> points (outlinePass c polygon buf)
       = points buf @ concat (map (outlineEnds polygon) [0..<length polygon - 1])
   \<and> int (length (points (outlinePass c polygon buf)))
       = int (length (points buf)) + 2 * max (int (length polygon) - 1) 0"
proof -
  have "int (length (outlinePoints polygon)) = 2 * max (int (length polygon) - 1) 0"
    by (simp add: length_outlinePoints max_def)
  then show ?thesis
    using addLinesStep_points [OF gridStep_pos, of c polygon buf]
    by (simp add: addLines_def outlinePass_points) (simp add: outlinePoints_def)
qed

subsection \<open>Scanlines and chords\<close>

lemma scanlinesFrom_mem:
  assumes s: "0 < step"
  shows "x \<in> set (scanlinesFrom step lat hi) \<longleftrightarrow> (\<exists>k::nat. x = lat + real k * step \<and> x \<le> hi)"
proof -
  have fit: "k < nat (\<lfloor>(hi - lat) / step\<rfloor> + 1) \<longleftrightarrow> lat + real k * step \<le> hi" for k :: nat
  proof -
    have "k < nat (\<lfloor>(hi - lat) / step\<rfloor> + 1) \<longleftrightarrow> int k \<le> \<lfloor>(hi - lat) / step\<rfloor>"
      by linarith
    also have "\<dots> \<longleftrightarrow> real k \<le> (hi - lat) / step"
      by (simp add: le_floor_iff)
    also have "\<dots> \<longleftrightarrow> real k * step \<le> hi - lat"
      using s by (simp add: pos_le_divide_eq)
    also have "\<dots> \<longleftrightarrow> lat + real k * step \<le> hi"
      by linarith
    finally show ?thesis .
  qed
  have "x \<in> set (scanlinesFrom step lat hi)
          \<longleftrightarrow> (\<exists>k. k < nat (\<lfloor>(hi - lat) / step\<rfloor> + 1) \<and> x = lat + real k * step)"
    by (auto simp: scanlinesFrom_def)
  also have "\<dots> \<longleftrightarrow> (\<exists>k::nat. x = lat + real k * step \<and> x \<le> hi)"
    using fit by auto
  finally show ?thesis .
qed

lemma firstScanline_bounds:
  assumes s: "0 < step"
  shows "lo \<le> firstScanline step lo" and "firstScanline step lo < lo + step"
proof -
  have c: "of_int \<lceil>lo / step\<rceil> - 1 < lo / step \<and> lo / step \<le> of_int \<lceil>lo / step\<rceil>"
    by (rule ceiling_correct)
  from c have "lo / step \<le> of_int \<lceil>lo / step\<rceil>" by simp
  then show "lo \<le> firstScanline step lo"
    unfolding firstScanline_def
    using pos_divide_le_eq [OF s, of lo "of_int \<lceil>lo / step\<rceil>"] by blast
  from c have "of_int \<lceil>lo / step\<rceil> < lo / step + 1" by linarith
  with s have "of_int \<lceil>lo / step\<rceil> * step < (lo / step + 1) * step"
    by (simp only: mult_less_cancel_right_pos)
  also have "(lo / step + 1) * step = lo + step"
    using s by (simp add: field_simps)
  finally show "firstScanline step lo < lo + step"
    by (simp add: firstScanline_def)
qed

lemma firstScanline_least:
  assumes s: "0 < step" and m: "lo \<le> of_int m * step"
  shows "firstScanline step lo \<le> of_int m * step"
proof -
  from s m have "lo / step \<le> of_int m" by (simp add: pos_divide_le_eq)
  then have "\<lceil>lo / step\<rceil> \<le> m" by (simp add: ceiling_le_iff)
  then have "(of_int \<lceil>lo / step\<rceil> :: real) \<le> of_int m" by simp
  with s show ?thesis
    by (simp add: firstScanline_def)
qed

lemma scanlines_mem:
  assumes s: "0 < step"
  shows "x \<in> set (scanlines step polygon) \<longleftrightarrow>
           (\<exists>k::nat. x = firstScanline step (minY (bounds polygon)) + real k * step
                    \<and> x \<le> maxY (bounds polygon))"
  unfolding scanlines_def by (rule scanlinesFrom_mem [OF s])

lemma scanlines_multiple:
  assumes s: "0 < step" and x: "x \<in> set (scanlines step polygon)"
  shows "(\<exists>m::int. x = of_int m * step) \<and> minY (bounds polygon) \<le> x \<and> x \<le> maxY (bounds polygon)"
proof -
  from x obtain k :: nat
    where k: "x = firstScanline step (minY (bounds polygon)) + real k * step"
      and le: "x \<le> maxY (bounds polygon)"
    by (auto simp: scanlines_mem [OF s])
  have "x = of_int (\<lceil>minY (bounds polygon) / step\<rceil> + int k) * step"
    by (simp add: k firstScanline_def algebra_simps)
  then have "\<exists>m::int. x = of_int m * step" by blast
  moreover have "0 \<le> real k * step" using s by simp
  with firstScanline_bounds(1) [OF s, of "minY (bounds polygon)"] k
  have "minY (bounds polygon) \<le> x" by linarith
  ultimately show ?thesis using le by blast
qed

lemma chordsAt_fst: "ch \<in> set (chordsAt polygon lat) \<Longrightarrow> fst ch = lat"
  by (auto simp: chordsAt_def)

lemma chordsAt_crossing:
  assumes "chordsAt polygon lat \<noteq> []"
  shows "\<exists>i < length polygon - 1. edgeCrosses (snd (polygon ! i)) (snd (polygon ! (i + 1))) lat"
proof -
  from assms have "pairUp (sort (intersectionsAt polygon lat)) \<noteq> []"
    by (simp add: chordsAt_def)
  then have "sort (intersectionsAt polygon lat) \<noteq> []"
    by (cases "sort (intersectionsAt polygon lat)") simp_all
  then have "intersectionsAt polygon lat \<noteq> []"
    by (cases "intersectionsAt polygon lat") simp_all
  then have "filter (\<lambda>i. edgeCrosses (snd (polygon ! i)) (snd (polygon ! (i + 1))) lat)
               [0..<length polygon - 1] \<noteq> []"
    by (simp add: intersectionsAt_def fold_intersectStep)
  then show ?thesis
    by (auto simp: filter_empty_conv)
qed

lemma crossing_in_lat_range:
  assumes i: "i < length polygon - 1"
    and c: "edgeCrosses (snd (polygon ! i)) (snd (polygon ! (i + 1))) lat"
  shows "minLat polygon \<le> lat \<and> lat \<le> maxLat polygon"
proof -
  from i have m1: "snd (polygon ! i) \<in> set (map snd polygon)"
    and m2: "snd (polygon ! (i + 1)) \<in> set (map snd polygon)"
    by simp_all
  have lo1: "minLat polygon \<le> snd (polygon ! i)" and lo2: "minLat polygon \<le> snd (polygon ! (i + 1))"
    unfolding minLat_def using m1 m2 by (simp_all only: Min_le List.finite_set)
  have hi1: "snd (polygon ! i) \<le> maxLat polygon" and hi2: "snd (polygon ! (i + 1)) \<le> maxLat polygon"
    unfolding maxLat_def using m1 m2 by (simp_all only: Max_ge List.finite_set)
  from c lo1 lo2 hi1 hi2 show ?thesis
    unfolding edgeCrosses_def by linarith
qed

lemma gridChords_mem:
  assumes "ch \<in> set (gridChords step polygon)"
  shows "fst ch \<in> set (scanlines step polygon) \<and> chordsAt polygon (fst ch) \<noteq> []"
proof -
  from assms obtain lat where l: "lat \<in> set (scanlines step polygon)" "ch \<in> set (chordsAt polygon lat)"
    by (auto simp: gridChords_def)
  from l(2) have "fst ch = lat" by (rule chordsAt_fst)
  with l show ?thesis by auto
qed

lemma boundsStep_minY: "minY (boundsStep v box) = min (snd v) (minY box)"
  by (simp add: boundsStep_def Let_def min_def)

lemma boundsStep_maxY: "maxY (boundsStep v box) = max (snd v) (maxY box)"
  by (simp add: boundsStep_def Let_def max_def)

lemma fold_boundsStep_minY:
  "minY (fold boundsStep polygon box) = Min (insert (minY box) (set (map snd polygon)))"
proof (induction polygon arbitrary: box)
  case Nil
  then show ?case by simp
next
  case (Cons v rest)
  have "Min (insert (min (snd v) (minY box)) (set (map snd rest)))
          = Min (insert (minY box) (insert (snd v) (set (map snd rest))))"
    by (cases "set (map snd rest) = {}") (simp_all add: min.commute min.left_commute min.assoc)
  with Cons.IH [of "boundsStep v box"] show ?case
    by (simp add: boundsStep_minY)
qed

lemma fold_boundsStep_maxY:
  "maxY (fold boundsStep polygon box) = Max (insert (maxY box) (set (map snd polygon)))"
proof (induction polygon arbitrary: box)
  case Nil
  then show ?case by simp
next
  case (Cons v rest)
  have "Max (insert (max (snd v) (maxY box)) (set (map snd rest)))
          = Max (insert (maxY box) (insert (snd v) (set (map snd rest))))"
    by (cases "set (map snd rest) = {}") (simp_all add: max.commute max.left_commute max.assoc)
  with Cons.IH [of "boundsStep v box"] show ?case
    by (simp add: boundsStep_maxY)
qed

lemma bounds_in_range:
  assumes ne: "polygon \<noteq> []" and r: "\<forall>v\<in>set polygon. - 90 \<le> snd v \<and> snd v \<le> 90"
  shows "minY (bounds polygon) = minLat polygon \<and> maxY (bounds polygon) = maxLat polygon"
proof -
  let ?S = "set (map snd polygon)"
  from ne have S: "?S \<noteq> {}" "finite ?S" by simp_all
  from ne obtain v where "v \<in> set polygon" by (cases polygon) auto
  then have y: "snd v \<in> ?S" by simp
  define y where "y = snd v"
  with y have y: "y \<in> ?S" by simp
  with r have "y \<le> 90" and "- 90 \<le> y" by auto
  moreover from y S(2) have "Min ?S \<le> y" and "y \<le> Max ?S" by simp_all
  ultimately have le: "Min ?S \<le> 90" "- 90 \<le> Max ?S" by linarith+
  have "Min (insert 90 ?S) = min 90 (Min ?S)" using S(2) S(1) by (rule Min_insert)
  with le(1) have mn: "Min (insert 90 ?S) = Min ?S" by linarith
  have "Max (insert (- 90) ?S) = max (- 90) (Max ?S)" using S(2) S(1) by (rule Max_insert)
  with le(2) have mx: "Max (insert (- 90) ?S) = Max ?S" by linarith
  have "minY (bounds polygon) = Min (insert 90 ?S)"
    unfolding bounds_def fold_boundsStep_minY by (simp add: initialBox_def)
  moreover have "maxY (bounds polygon) = Max (insert (- 90) ?S)"
    unfolding bounds_def fold_boundsStep_maxY by (simp add: initialBox_def)
  ultimately show ?thesis
    unfolding minLat_def maxLat_def by (simp only: mn mx)
qed

lemma gridChords_on_scanlines:
  assumes s: "0 < step" and ch: "ch \<in> set (gridChords step polygon)"
  shows "(\<exists>m::int. fst ch = of_int m * step)
       \<and> minY (bounds polygon) \<le> fst ch \<and> fst ch \<le> maxY (bounds polygon)
       \<and> minLat polygon \<le> fst ch \<and> fst ch \<le> maxLat polygon"
proof -
  from gridChords_mem [OF ch]
  have sc: "fst ch \<in> set (scanlines step polygon)" and ne: "chordsAt polygon (fst ch) \<noteq> []"
    by simp_all
  from chordsAt_crossing [OF ne] obtain i where "i < length polygon - 1"
    "edgeCrosses (snd (polygon ! i)) (snd (polygon ! (i + 1))) (fst ch)" by blast
  then have "minLat polygon \<le> fst ch \<and> fst ch \<le> maxLat polygon"
    by (rule crossing_in_lat_range)
  with scanlines_multiple [OF s sc] show ?thesis by simp
qed

text \<open>
  C4: for a positive step the tessellator returns, and after the outline its output
  consists of the two ends of each chord, both projected from the chord's one latitude.
  That latitude is a multiple of the step and lies within \<open>[minY, maxY]\<close> of the
  bounding pass and within the least and greatest latitude of the ring. The scanlines
  are exactly the values \<open>first + k * step\<close> that are \<open>\<le> maxY\<close>, where \<open>first\<close> is the
  smallest multiple of the step that is \<open>\<ge> minY\<close>. For a non-empty ring with latitudes in
  \<open>[-90, 90]\<close>, \<open>minY\<close> and \<open>maxY\<close> are the least and the greatest latitude of the ring.
\<close>

theorem grid_segments_on_scanlines:
  assumes "0 < step"
  shows "(\<exists>out. addLinesStep step c polygon buf = Some out
            \<and> points out = points buf @ outlinePoints polygon
                 @ concat (map chordEnds (gridChords step polygon)))
       \<and> (\<forall>ch\<in>set (gridChords step polygon).
            (\<exists>m::int. fst ch = of_int m * step)
            \<and> minY (bounds polygon) \<le> fst ch \<and> fst ch \<le> maxY (bounds polygon)
            \<and> minLat polygon \<le> fst ch \<and> fst ch \<le> maxLat polygon)
       \<and> (\<forall>lat. lat \<in> set (scanlines step polygon) \<longleftrightarrow>
            (\<exists>k::nat. lat = firstScanline step (minY (bounds polygon)) + real k * step
                     \<and> lat \<le> maxY (bounds polygon)))
       \<and> (\<exists>m::int. firstScanline step (minY (bounds polygon)) = of_int m * step)
       \<and> minY (bounds polygon) \<le> firstScanline step (minY (bounds polygon))
       \<and> (\<forall>m::int. minY (bounds polygon) \<le> of_int m * step
            \<longrightarrow> firstScanline step (minY (bounds polygon)) \<le> of_int m * step)
       \<and> (polygon \<noteq> [] \<and> (\<forall>v\<in>set polygon. - 90 \<le> snd v \<and> snd v \<le> 90)
            \<longrightarrow> minY (bounds polygon) = minLat polygon \<and> maxY (bounds polygon) = maxLat polygon)"
proof (intro conjI)
  show "\<exists>out. addLinesStep step c polygon buf = Some out
            \<and> points out = points buf @ outlinePoints polygon
                 @ concat (map chordEnds (gridChords step polygon))"
    using addLinesStep_points [OF assms, of c polygon buf] by (simp add: gridPoints_def)
  show "\<forall>ch\<in>set (gridChords step polygon).
            (\<exists>m::int. fst ch = of_int m * step)
            \<and> minY (bounds polygon) \<le> fst ch \<and> fst ch \<le> maxY (bounds polygon)
            \<and> minLat polygon \<le> fst ch \<and> fst ch \<le> maxLat polygon"
    using gridChords_on_scanlines [OF assms] by blast
  show "\<forall>lat. lat \<in> set (scanlines step polygon) \<longleftrightarrow>
            (\<exists>k::nat. lat = firstScanline step (minY (bounds polygon)) + real k * step
                     \<and> lat \<le> maxY (bounds polygon))"
    using scanlines_mem [OF assms] by blast
  show "\<exists>m::int. firstScanline step (minY (bounds polygon)) = of_int m * step"
    unfolding firstScanline_def by blast
  show "minY (bounds polygon) \<le> firstScanline step (minY (bounds polygon))"
    by (rule firstScanline_bounds(1) [OF assms])
  show "\<forall>m::int. minY (bounds polygon) \<le> of_int m * step
            \<longrightarrow> firstScanline step (minY (bounds polygon)) \<le> of_int m * step"
    using firstScanline_least [OF assms] by blast
  show "polygon \<noteq> [] \<and> (\<forall>v\<in>set polygon. - 90 \<le> snd v \<and> snd v \<le> 90)
            \<longrightarrow> minY (bounds polygon) = minLat polygon \<and> maxY (bounds polygon) = maxLat polygon"
    using bounds_in_range by blast
qed

lemmas scan_eval = scanlines_def scanlinesFrom_def firstScanline_def bounds_def boundsStep_def
  initialBox_def Let_def upt_rec

lemmas cross_eval = intersectionsAt_def intersectStep_def edgeCrosses_def crossingLng_def

lemma scanlines_closedSquare: "scanlines 5 closedSquare = [0, 5, 10]"
  by (simp add: closedSquare_def scan_eval)

lemma intersections_closedSquare:
  "intersectionsAt closedSquare 0 = [10, 0]"
  "intersectionsAt closedSquare 5 = [10, 0]"
  "intersectionsAt closedSquare 10 = []"
  by (simp_all add: closedSquare_def cross_eval)

lemma gridChords_closedSquare: "gridChords 5 closedSquare = [(0, 0, 10), (5, 0, 10)]"
  by (simp add: gridChords_def scanlines_closedSquare chordsAt_def intersections_closedSquare)

lemma lat_range_closedSquare: "minLat closedSquare = 0" "maxLat closedSquare = 10"
  by (simp_all add: minLat_def maxLat_def closedSquare_def)

theorem grid_segments_on_scanlines_witness:
  "(0::real) < 5
   \<and> closedSquare \<noteq> []
   \<and> list_all (\<lambda>v. - 90 \<le> snd v \<and> snd v \<le> 90) closedSquare
   \<and> gridChords 5 closedSquare = [(0, 0, 10), (5, 0, 10)]
   \<and> scanlines 5 closedSquare = [0, 5, 10]
   \<and> minY (bounds closedSquare) = 0 \<and> maxY (bounds closedSquare) = 10
   \<and> minLat closedSquare = 0 \<and> maxLat closedSquare = 10
   \<and> firstScanline 5 (minY (bounds closedSquare)) = 0
   \<and> (\<exists>out. addLinesStep 5 (JColor DEFAULT_COLOR) closedSquare emptyBuffer = Some out
         \<and> points out = outlinePoints closedSquare
              @ [latLngToVector3 0 0 (GLOBE_RADIUS + 0.01), latLngToVector3 0 10 (GLOBE_RADIUS + 0.01),
                 latLngToVector3 5 0 (GLOBE_RADIUS + 0.01), latLngToVector3 5 10 (GLOBE_RADIUS + 0.01)])"
proof -
  have r: "list_all (\<lambda>v. - 90 \<le> snd v \<and> snd v \<le> 90) closedSquare"
    by (simp add: closedSquare_def)
  have ne: "closedSquare \<noteq> []"
    by (simp add: closedSquare_def)
  have f: "firstScanline 5 (minY (bounds closedSquare)) = 0"
    by (simp add: closedSquare_def scan_eval)
  from r ne grid_segments_on_scanlines [of 5 "JColor DEFAULT_COLOR" closedSquare emptyBuffer]
  show ?thesis
    by (simp add: gridChords_closedSquare scanlines_closedSquare lat_range_closedSquare f
        chordEnds_def emptyBuffer_def list_all_iff firstScanline_def)
qed

subsection \<open>The open square\<close>

lemma scanlines_openSquare: "scanlines 5 openSquare = [0, 5, 10]"
  by (simp add: openSquare_def scan_eval)

lemma intersections_openSquare:
  "intersectionsAt openSquare 0 = [10]"
  "intersectionsAt openSquare 5 = [10]"
  "intersectionsAt openSquare 10 = []"
  by (simp_all add: openSquare_def cross_eval)

lemma gridChords_openSquare: "gridChords 5 openSquare = []"
  by (simp add: gridChords_def scanlines_openSquare chordsAt_def intersections_openSquare)

text \<open>
  C3, as amended: for the open ring \<open>[(0,0), (10,0), (10,10), (0,10)]\<close> and a step of 5,
  the tessellator emits exactly 3 outline segments and evaluates the scanlines 0, 5 and
  10; on the scanline 5 exactly one edge crosses, the one from \<open>(10,0)\<close> to \<open>(10,10)\<close>,
  at longitude 10 (the ring is traversed open, so there is no edge from \<open>(0,10)\<close> back
  to \<open>(0,0)\<close>), the single crossing is dropped, and no chord is emitted: the output is
  the outline alone.
\<close>

theorem open_square_scenario:
  "addLinesStep 5 c openSquare buf = Some (outlinePass c openSquare buf)
   \<and> points (outlinePass c openSquare buf) = points buf @ outlinePoints openSquare
   \<and> length (outlinePoints openSquare) = 2 * 3
   \<and> scanlines 5 openSquare = [0, 5, 10]
   \<and> intersectionsAt openSquare 5 = [10]
   \<and> gridChords 5 openSquare = []"
proof -
  have "addLinesStep 5 c openSquare buf
          = Some (fold (gridLine c openSquare) (scanlines 5 openSquare) (outlinePass c openSquare buf))"
    by (rule addLinesStep_closed) simp
  then have "addLinesStep 5 c openSquare buf = Some (outlinePass c openSquare buf)"
    by (simp add: scanlines_openSquare gridLine_def intersections_openSquare)
  moreover have "length (outlinePoints openSquare) = 2 * 3"
    by (simp add: length_outlinePoints openSquare_def)
  ultimately show ?thesis
    by (simp only: outlinePass_points scanlines_openSquare intersections_openSquare
        gridChords_openSquare simp_thms)
qed

text \<open>
  The scenario as written expects two crossings on the scanline 5 and the chord from
  longitude 0 to longitude 10.
\<close>

theorem open_square_counterexample:
  "length (intersectionsAt openSquare 5) \<noteq> 2 \<and> (5, 0, 10) \<notin> set (gridChords 5 openSquare)"
  by (simp add: intersections_openSquare gridChords_openSquare)

text \<open>
  With the step \<^verbatim>\<open>2.0\<close> that the source fixes, the open square is scanned at 0, 2, \<dots>, 10;
  every scanline below 10 meets the one edge from \<open>(10,0)\<close> to \<open>(10,10)\<close>, and again no
  chord is emitted.
\<close>

lemma scanlines_openSquare_gridStep: "scanlines gridStep openSquare = [0, 2, 4, 6, 8, 10]"
  by (simp add: openSquare_def gridStep_def scan_eval)

lemma intersections_openSquare_gridStep:
  "intersectionsAt openSquare 2 = [10]"
  "intersectionsAt openSquare 4 = [10]"
  "intersectionsAt openSquare 6 = [10]"
  "intersectionsAt openSquare 8 = [10]"
  by (simp_all add: openSquare_def cross_eval)

lemma addLines_openSquare: "addLines c openSquare buf = Some (outlinePass c openSquare buf)"
proof -
  have "addLines c openSquare buf
          = Some (fold (gridLine c openSquare) (scanlines gridStep openSquare)
                    (outlinePass c openSquare buf))"
    unfolding addLines_def by (rule addLinesStep_closed [OF gridStep_pos])
  then show ?thesis
    by (simp add: scanlines_openSquare_gridStep gridLine_def intersections_openSquare
        intersections_openSquare_gridStep)
qed

section \<open>The boundary mesh builder\<close>

lemma fold_inv:
  assumes "\<And>x s. P s \<Longrightarrow> P (f x s)" "P s"
  shows "P (fold f xs s)"
  using assms(2) by (induction xs arbitrary: s) (simp_all add: assms(1))

lemma outlineStep_inv: "bufferInv buf \<Longrightarrow> bufferInv (outlineStep c polygon i buf)"
  by (simp add: bufferInv_def outlineStep_def Let_def)

lemma outlinePass_inv: "bufferInv buf \<Longrightarrow> bufferInv (outlinePass c polygon buf)"
  unfolding outlinePass_def by (rule fold_inv) (simp_all add: outlineStep_inv)

lemma pushChord_inv: "bufferInv buf \<Longrightarrow> bufferInv (pushChord c lat lngA lngB buf)"
  by (simp add: bufferInv_def pushChord_def Let_def)

lemma chordLoop_inv: "bufferInv buf \<Longrightarrow> bufferInv (chordLoop c lat xs buf)"
  by (induction c lat xs buf rule: chordLoop.induct) (simp_all add: pushChord_inv)

lemma gridLine_inv: "bufferInv buf \<Longrightarrow> bufferInv (gridLine c polygon lat buf)"
  by (simp add: gridLine_def chordLoop_inv)

lemma addLines_inv:
  assumes "bufferInv buf"
  shows "\<exists>out. addLines c polygon buf = Some out \<and> bufferInv out"
proof -
  have "bufferInv (fold (gridLine c polygon) (scanlines gridStep polygon) (outlinePass c polygon buf))"
    by (rule fold_inv) (simp_all add: gridLine_inv outlinePass_inv assms)
  then show ?thesis
    by (simp add: addLines_def addLinesStep_closed [OF gridStep_pos])
qed

lemma forEachRing_inv:
  "bufferInv buf \<Longrightarrow> \<exists>out. forEachRing c rings buf = Some out \<and> bufferInv out"
proof (induction rings arbitrary: buf)
  case Nil
  then show ?case by simp
next
  case (Cons polygon rest)
  from addLines_inv [OF Cons.prems] obtain buf1
    where "addLines c polygon buf = Some buf1" "bufferInv buf1" by blast
  with Cons.IH [of buf1] show ?case by simp
qed

lemma forEachPolygon_inv:
  "bufferInv buf \<Longrightarrow> \<exists>out. forEachPolygon c polys buf = Some out \<and> bufferInv out"
proof (induction polys arbitrary: buf)
  case Nil
  then show ?case by simp
next
  case (Cons multiPolygon rest)
  from forEachRing_inv [OF Cons.prems] obtain buf1
    where "forEachRing c multiPolygon buf = Some buf1" "bufferInv buf1" by blast
  with Cons.IH [of buf1] show ?case by simp
qed

lemma processFeature_cases:
  assumes "bufferInv buf"
  shows "(\<exists>e. processFeature f buf = Some (Inl e) \<and> (malformed f \<or> properties f = None))
       \<or> (\<exists>out. processFeature f buf = Some (Inr out) \<and> bufferInv out
             \<and> \<not> malformed f \<and> properties f \<noteq> None)"
proof (cases "geometry f")
  case None
  then show ?thesis by (simp add: processFeature_def)
next
  case (Some geo)
  show ?thesis
  proof (cases "properties f")
    case None
    with Some show ?thesis by (simp add: processFeature_def)
  next
    case props: (Some props)
    show ?thesis
    proof (cases geo)
      case (Polygon coords)
      show ?thesis
      proof (cases coords)
        case None
        with Some props Polygon show ?thesis by (simp add: processFeature_def)
      next
        case (Some rings)
        from forEachRing_inv [OF assms, of "continentColor props" rings]
        show ?thesis using \<open>geometry f = Some geo\<close> props Polygon Some
          by (auto simp: processFeature_def)
      qed
    next
      case (MultiPolygon coords)
      show ?thesis
      proof (cases coords)
        case None
        with Some props MultiPolygon show ?thesis by (simp add: processFeature_def)
      next
        case (Some polys)
        from forEachPolygon_inv [OF assms, of "continentColor props" polys]
        show ?thesis using \<open>geometry f = Some geo\<close> props MultiPolygon Some
          by (auto simp: processFeature_def)
      qed
    next
      case (OtherGeometry t)
      with Some props assms show ?thesis by (simp add: processFeature_def)
    qed
  qed
qed

lemma forEachFeature_inv:
  "bufferInv buf \<Longrightarrow> forEachFeature features buf = Some (Inr out) \<Longrightarrow> bufferInv out"
proof (induction features arbitrary: buf)
  case Nil
  then show ?case by simp
next
  case (Cons f rest)
  from processFeature_cases [OF Cons.prems(1), of f] Cons.prems(2) Cons.IH
  show ?case by auto
qed

lemma forEachFeature_total:
  "bufferInv buf \<Longrightarrow> forEachFeature features buf \<noteq> None"
proof (induction features arbitrary: buf)
  case Nil
  then show ?case by simp
next
  case (Cons f rest)
  from processFeature_cases [OF Cons.prems(1), of f] Cons.IH
  show ?case by auto
qed

lemma forEachFeature_malformed:
  "bufferInv buf \<Longrightarrow> \<exists>f\<in>set features. malformed f \<Longrightarrow> \<exists>e. forEachFeature features buf = Some (Inl e)"
proof (induction features arbitrary: buf)
  case Nil
  then show ?case by simp
next
  case (Cons f rest)
  from processFeature_cases [OF Cons.prems(1), of f]
  show ?case
  proof
    assume "\<exists>e. processFeature f buf = Some (Inl e) \<and> (malformed f \<or> properties f = None)"
    then show ?thesis by auto
  next
    assume "\<exists>out. processFeature f buf = Some (Inr out) \<and> bufferInv out
             \<and> \<not> malformed f \<and> properties f \<noteq> None"
    then obtain out where o: "processFeature f buf = Some (Inr out)" "bufferInv out" "\<not> malformed f"
      by blast
    with Cons.prems(2) have "\<exists>f\<in>set rest. malformed f" by auto
    from Cons.IH [OF o(2) this] o(1) show ?thesis by simp
  qed
qed

lemma forEachFeature_wellformed:
  "bufferInv buf \<Longrightarrow> \<forall>f\<in>set features. \<not> malformed f \<and> properties f \<noteq> None
     \<Longrightarrow> \<exists>out. forEachFeature features buf = Some (Inr out)"
proof (induction features arbitrary: buf)
  case Nil
  then show ?case by simp
next
  case (Cons f rest)
  from processFeature_cases [OF Cons.prems(1), of f] Cons.prems(2)
  obtain out where o: "processFeature f buf = Some (Inr out)" "bufferInv out"
    by auto
  from Cons.IH [OF o(2)] Cons.prems(2) o(1) show ?case by simp
qed

lemma emptyBuffer_inv: "bufferInv emptyBuffer"
  by (simp add: bufferInv_def emptyBuffer_def)

lemma build_total: "build features \<noteq> None"
  unfolding build_def by (rule forEachFeature_total [OF emptyBuffer_inv])

text \<open>
  C6: whenever the builder produces a buffer, the number of points equals the number of
  colour triples (three colour numbers per point), and both are even.
\<close>

theorem buffer_invariant:
  assumes "build features = Some (Inr buf)"
  shows "colorCount buf = length (points buf) \<and> length (colors buf) = 3 * length (points buf)
         \<and> even (length (points buf)) \<and> even (colorCount buf)"
proof -
  from assms have "bufferInv buf"
    unfolding build_def by (rule forEachFeature_inv [OF emptyBuffer_inv])
  then show ?thesis by (simp add: bufferInv_def colorCount_def)
qed

lemmas build_eval = build_def processFeature_def addLines_def addLinesStep_def Let_def
  gridLoop.simps bounds_def boundsStep_def initialBox_def firstScanline_def gridStep_def
  outlinePass_def outlineStep_def gridLine_def intersectionsAt_def intersectStep_def
  edgeCrosses_def crossingLng_def pushChord_def emptyBuffer_def

lemma build_smallSquare:
  "\<exists>out. build [smallSquare] = Some (Inr out) \<and> length (points out) = 10 \<and> length (colors out) = 30"
  by (simp add: smallSquare_def build_eval)

theorem buffer_invariant_witness:
  "\<exists>out. build [smallSquare] = Some (Inr out) \<and> length (points out) = 10
      \<and> colorCount out = 10 \<and> length (colors out) = 30 \<and> even (colorCount out)"
proof -
  from build_smallSquare obtain out
    where o: "build [smallSquare] = Some (Inr out)" "length (points out) = 10" by blast
  from buffer_invariant [OF o(1)] o show ?thesis by simp
qed

subsection \<open>The combined buffer\<close>

lemma fold_outlineStep_colors_eq:
  "colors (fold (outlineStep c polygon) idxs buf)
     = colors buf @ concat (map (\<lambda>i. fullColors c) idxs)"
  by (induction idxs arbitrary: buf) (simp_all add: outlineStep_def fullColors_def Let_def)

lemma chordLoop_colors:
  "colors (chordLoop c lat xs buf) = colors buf @ concat (map (\<lambda>ab. dimColors c) (pairUp xs))"
  by (induction c lat xs buf rule: chordLoop.induct) (simp_all add: pushChord_def dimColors_def Let_def)

lemma gridLine_colors:
  "colors (gridLine c polygon lat buf)
     = colors buf @ concat (map (\<lambda>ch. dimColors c) (chordsAt polygon lat))"
  by (simp add: gridLine_def chordLoop_colors chordsAt_def comp_def)

lemma fold_gridLine_colors:
  "colors (fold (gridLine c polygon) lats buf)
     = colors buf @ concat (map (\<lambda>ch. dimColors c) (concat (map (chordsAt polygon) lats)))"
  by (induction lats arbitrary: buf) (simp_all add: gridLine_colors)

lemma addLines_extend:
  "addLines c polygon buf = Some (extendBuffer buf (ringPoints polygon) (ringColors c polygon))"
proof -
  let ?out = "fold (gridLine c polygon) (scanlines gridStep polygon) (outlinePass c polygon buf)"
  have p: "points ?out = points buf @ ringPoints polygon"
    by (simp add: fold_gridLine_points outlinePass_points ringPoints_def gridPoints_def
        gridChords_def)
  have c: "colors ?out = colors buf @ ringColors c polygon"
    by (simp add: fold_gridLine_colors outlinePass_def fold_outlineStep_colors_eq ringColors_def
        gridChords_def)
  have "?out = extendBuffer buf (ringPoints polygon) (ringColors c polygon)"
    by (rule buffer.equality) (simp_all add: extendBuffer_def p c)
  then show ?thesis
    by (simp add: addLines_def addLinesStep_closed [OF gridStep_pos])
qed

lemma extendBuffer_twice:
  "extendBuffer (extendBuffer buf ps cs) ps' cs' = extendBuffer buf (ps @ ps') (cs @ cs')"
  by (simp add: extendBuffer_def)

lemma extendBuffer_Nil: "extendBuffer buf [] [] = buf"
  by (simp add: extendBuffer_def)

lemma forEachRing_extend:
  "forEachRing c rings buf
     = Some (extendBuffer buf (concat (map ringPoints rings)) (concat (map (ringColors c) rings)))"
  by (induction rings arbitrary: buf) (simp_all add: addLines_extend extendBuffer_twice extendBuffer_Nil)

lemma forEachPolygon_extend:
  "forEachPolygon c polys buf
     = Some (extendBuffer buf (concat (map ringPoints (concat polys)))
               (concat (map (ringColors c) (concat polys))))"
  by (induction polys arbitrary: buf)
    (simp_all add: forEachRing_extend extendBuffer_twice extendBuffer_Nil)

lemma processFeature_extend:
  assumes "\<not> malformed f" "properties f \<noteq> None"
  shows "processFeature f buf = Some (Inr (extendBuffer buf (featurePoints f) (featureColors f)))"
proof -
  from assms(2) obtain props where props: "properties f = Some props" by blast
  from assms(1) obtain geo where geo: "geometry f = Some geo" by (cases "geometry f") simp_all
  show ?thesis
  proof (cases geo)
    case (Polygon coords)
    with assms(1) geo obtain rings where "coords = Some rings" by (cases coords) simp_all
    with Polygon geo props show ?thesis
      by (simp add: processFeature_def forEachRing_extend featurePoints_def featureColors_def
          featureRings_def featureColor_def)
  next
    case (MultiPolygon coords)
    with assms(1) geo obtain polys where "coords = Some polys" by (cases coords) simp_all
    with MultiPolygon geo props show ?thesis
      by (simp add: processFeature_def forEachPolygon_extend featurePoints_def featureColors_def
          featureRings_def featureColor_def)
  next
    case (OtherGeometry t)
    with geo props show ?thesis
      by (simp add: processFeature_def featurePoints_def featureColors_def featureRings_def
          extendBuffer_Nil)
  qed
qed

lemma forEachFeature_extend:
  assumes "\<forall>f\<in>set features. \<not> malformed f \<and> properties f \<noteq> None"
  shows "forEachFeature features buf
           = Some (Inr (extendBuffer buf (concat (map featurePoints features))
                          (concat (map featureColors features))))"
  using assms
  by (induction features arbitrary: buf)
    (simp_all add: processFeature_extend extendBuffer_twice extendBuffer_Nil)

lemma build_combined:
  assumes "\<forall>f\<in>set features. \<not> malformed f \<and> properties f \<noteq> None"
  shows "build features = Some (Inr (combinedBuffer features))"
  unfolding build_def forEachFeature_extend [OF assms]
  by (simp add: extendBuffer_def emptyBuffer_def combinedBuffer_def)

lemma combinedBuffer_smallSquare:
  "points (combinedBuffer [pointFeature, smallSquare])
     = [latLngToVector3 0 0 (GLOBE_RADIUS + 0.02), latLngToVector3 0 2 (GLOBE_RADIUS + 0.02),
        latLngToVector3 0 2 (GLOBE_RADIUS + 0.02), latLngToVector3 2 2 (GLOBE_RADIUS + 0.02),
        latLngToVector3 2 2 (GLOBE_RADIUS + 0.02), latLngToVector3 2 0 (GLOBE_RADIUS + 0.02),
        latLngToVector3 2 0 (GLOBE_RADIUS + 0.02), latLngToVector3 0 0 (GLOBE_RADIUS + 0.02),
        latLngToVector3 0 0 (GLOBE_RADIUS + 0.01), latLngToVector3 0 2 (GLOBE_RADIUS + 0.01)]"
  "colors (combinedBuffer [pointFeature, smallSquare])
     = fullColors (JColor (hexColor 0x00 0xf2 0xff)) @ fullColors (JColor (hexColor 0x00 0xf2 0xff))
       @ fullColors (JColor (hexColor 0x00 0xf2 0xff)) @ fullColors (JColor (hexColor 0x00 0xf2 0xff))
       @ dimColors (JColor (hexColor 0x00 0xf2 0xff))"
  by (simp_all add: combinedBuffer_def featurePoints_def featureColors_def featureRings_def
      featureColor_def pointFeature_def smallSquare_def ringPoints_def ringColors_def
      outlinePoints_def outlineEnds_def gridPoints_def gridChords_def chordsAt_def chordEnds_def
      gridStep_def scan_eval cross_eval colorOf_table continentColor_def continentName_def
      str_or_def)

text \<open>
  C1, as amended: for a feature collection whose coordinates, where present, are nested
  as their geometry type says (rings of \<^verbatim>\<open>[lng, lat]\<close> pairs), if any feature is
  malformed (no \<^verbatim>\<open>geometry\<close>, or a polygon or multi-polygon without \<^verbatim>\<open>coordinates\<close>),
  the callback throws, the error is caught and logged, and no buffer is produced: the
  geometry stays \<^verbatim>\<open>null\<close>. When no feature is malformed and every feature has
  \<^verbatim>\<open>properties\<close>, the builder produces the combined buffer: the segments and colours
  of every ring of every polygon and multi-polygon, in feature-then-ring order. A
  feature whose geometry type is neither \<^verbatim>\<open>Polygon\<close> nor \<^verbatim>\<open>MultiPolygon\<close> contributes
  nothing to it and leaves the arrays as they are: it is skipped silently.
\<close>

theorem malformed_feature_aborts_build:
  "((\<exists>f\<in>set features. malformed f) \<longrightarrow>
       (\<exists>e. build features = Some (Inl e)) \<and> geometryState features = None)
   \<and> ((\<forall>f\<in>set features. \<not> malformed f \<and> properties f \<noteq> None) \<longrightarrow>
       build features = Some (Inr (combinedBuffer features))
       \<and> geometryState features = Some (combinedBuffer features))
   \<and> featurePoints \<lparr>geometry = Some (OtherGeometry t), properties = Some props\<rparr> = []
   \<and> featureColors \<lparr>geometry = Some (OtherGeometry t), properties = Some props\<rparr> = []
   \<and> processFeature \<lparr>geometry = Some (OtherGeometry t), properties = Some props\<rparr> buf = Some (Inr buf)"
proof (intro conjI impI)
  assume "\<exists>f\<in>set features. malformed f"
  from forEachFeature_malformed [OF emptyBuffer_inv this]
  obtain e where e: "build features = Some (Inl e)" by (auto simp: build_def)
  then show "\<exists>e. build features = Some (Inl e)" by blast
  from e show "geometryState features = None" by (simp add: geometryState_def)
next
  assume w: "\<forall>f\<in>set features. \<not> malformed f \<and> properties f \<noteq> None"
  then show b: "build features = Some (Inr (combinedBuffer features))"
    by (rule build_combined)
  then show "geometryState features = Some (combinedBuffer features)"
    by (simp add: geometryState_def)
next
  show "featurePoints \<lparr>geometry = Some (OtherGeometry t), properties = Some props\<rparr> = []"
    by (simp add: featurePoints_def featureRings_def)
  show "featureColors \<lparr>geometry = Some (OtherGeometry t), properties = Some props\<rparr> = []"
    by (simp add: featureColors_def featureRings_def)
  show "processFeature \<lparr>geometry = Some (OtherGeometry t), properties = Some props\<rparr> buf = Some (Inr buf)"
    by (simp add: processFeature_def)
qed

theorem malformed_feature_aborts_build_witness:
  "malformed noCoordinates
   \<and> (\<exists>e. build [smallSquare, noCoordinates] = Some (Inl e))
   \<and> geometryState [smallSquare, noCoordinates] = None
   \<and> \<not> malformed pointFeature \<and> properties pointFeature \<noteq> None
   \<and> \<not> malformed smallSquare \<and> properties smallSquare \<noteq> None
   \<and> build [pointFeature, smallSquare] = Some (Inr (combinedBuffer [pointFeature, smallSquare]))
   \<and> geometryState [pointFeature, smallSquare] = Some (combinedBuffer [pointFeature, smallSquare])
   \<and> points (combinedBuffer [pointFeature, smallSquare])
     = [latLngToVector3 0 0 (GLOBE_RADIUS + 0.02), latLngToVector3 0 2 (GLOBE_RADIUS + 0.02),
        latLngToVector3 0 2 (GLOBE_RADIUS + 0.02), latLngToVector3 2 2 (GLOBE_RADIUS + 0.02),
        latLngToVector3 2 2 (GLOBE_RADIUS + 0.02), latLngToVector3 2 0 (GLOBE_RADIUS + 0.02),
        latLngToVector3 2 0 (GLOBE_RADIUS + 0.02), latLngToVector3 0 0 (GLOBE_RADIUS + 0.02),
        latLngToVector3 0 0 (GLOBE_RADIUS + 0.01), latLngToVector3 0 2 (GLOBE_RADIUS + 0.01)]
   \<and> colors (combinedBuffer [pointFeature, smallSquare])
     = fullColors (JColor (hexColor 0x00 0xf2 0xff)) @ fullColors (JColor (hexColor 0x00 0xf2 0xff))
       @ fullColors (JColor (hexColor 0x00 0xf2 0xff)) @ fullColors (JColor (hexColor 0x00 0xf2 0xff))
       @ dimColors (JColor (hexColor 0x00 0xf2 0xff))"
proof -
  have m: "malformed noCoordinates" "\<not> malformed smallSquare" "properties smallSquare \<noteq> None"
    "\<not> malformed pointFeature" "properties pointFeature \<noteq> None"
    by (simp_all add: noCoordinates_def smallSquare_def pointFeature_def)
  from m malformed_feature_aborts_build [of "[smallSquare, noCoordinates]"]
    malformed_feature_aborts_build [of "[pointFeature, smallSquare]"]
  show ?thesis by (simp add: combinedBuffer_smallSquare)
qed

text \<open>
  The claim as written has the malformed feature skipped and the buffer of the
  well-formed features produced. A collection with one well-formed square and one
  feature without geometry, or without coordinates, produces no buffer at all, whether
  the malformed feature comes first or last.
\<close>

theorem malformed_feature_counterexample:
  "malformed noGeometry \<and> malformed noCoordinates \<and> \<not> malformed smallSquare
   \<and> geometryState [smallSquare] \<noteq> None
   \<and> build [noGeometry, smallSquare] = Some (Inl (TypeError ''geo.type''))
   \<and> geometryState [noGeometry, smallSquare] = None
   \<and> build [smallSquare, noCoordinates] = Some (Inl (TypeError ''coords.forEach''))
   \<and> geometryState [smallSquare, noCoordinates] = None"
  by (simp add: geometryState_def noGeometry_def noCoordinates_def smallSquare_def build_eval)

end
